theory Spec2Isabelle
  imports Complex_Main
begin

section \<open>Values, dictionaries and exceptions\<close>

text \<open>
  The decision core of ZeraCorp (\<open>src/core/ai_agent.py\<close>, \<open>src/services/cost_management.py\<close>
  and the conflict handler of \<open>src/main.py\<close>) is embedded function by function.
  A Python float is embedded as the \<open>real\<close> number the double denotes (infinities and
  NaN are not modelled), an int as an \<open>int\<close>. The product \<open>priority * confidence\<close> of
  \<open>decide_action\<close> is the host's, with its rounding and its errors; the decay of the
  maintenance pass multiplies exactly. A \<open>dict\<close> is an association list in insertion
  order whose keys are distinct.

  The values of the rule catalog, of the tool table and of the sensor data are the
  scalars a JSON document holds; nothing in the code validates them.

  \<open>error\<close> stands for the exceptions derived from Python's \<open>Exception\<close>. What a
  call can raise is \<open>raised\<close>: such an exception, or one of the exit signals
  \<open>SystemExit\<close> and \<open>KeyboardInterrupt\<close>, which derive from \<open>BaseException\<close> only
  and pass through the handler \<open>except Exception\<close> of \<open>decide_action\<close>.
\<close>

datatype pyval = IntV int | FloatV real | StrV string | BoolV bool | NoneV

type_synonym pydict = "(string \<times> pyval) list"

datatype error = KeyError string | Raised string

datatype raised = Exception error | SystemExit | KeyboardInterrupt

text \<open>\<open>except Exception as e\<close>: the exception caught, if it is caught.\<close>

fun except_Exception :: "raised \<Rightarrow> error option" where
  "except_Exception (Exception e) = Some e"
| "except_Exception SystemExit = None"
| "except_Exception KeyboardInterrupt = None"

text \<open>\<open>d[k] = v\<close>: an existing key keeps its place, a new key goes to the end.\<close>

fun dict_set :: "'k \<Rightarrow> 'v \<Rightarrow> ('k \<times> 'v) list \<Rightarrow> ('k \<times> 'v) list" where
  "dict_set k v [] = [(k, v)]"
| "dict_set k v (p # ps) = (if fst p = k then (k, v) # ps else p # dict_set k v ps)"

text \<open>\<open>del d[k]\<close> for a key that is present.\<close>

fun dict_del :: "'k \<Rightarrow> ('k \<times> 'v) list \<Rightarrow> ('k \<times> 'v) list" where
  "dict_del k [] = []"
| "dict_del k (p # ps) = (if fst p = k then ps else p # dict_del k ps)"

text \<open>\<open>d.get(k, default)\<close>.\<close>

definition dict_get :: "('k \<times> 'v) list \<Rightarrow> 'k \<Rightarrow> 'v \<Rightarrow> 'v" where
  "dict_get d k dflt = (case map_of d k of None \<Rightarrow> dflt | Some v \<Rightarrow> v)"

text \<open>\<open>d[k]\<close>, which raises \<open>KeyError\<close> for a missing key.\<close>

definition getitem :: "(string \<times> 'v) list \<Rightarrow> string \<Rightarrow> error + 'v" where
  "getitem d k = (case map_of d k of None \<Rightarrow> Inl (KeyError k) | Some v \<Rightarrow> Inr v)"

text \<open>
  The number a value stands for in a comparison with a number (\<open>True\<close> is 1); a string
  or \<open>None\<close> is no number, and comparing it with one raises \<open>TypeError\<close>.
\<close>

definition as_number :: "pyval \<Rightarrow> real option" where
  "as_number v =
     (case v of
        IntV i \<Rightarrow> Some (real_of_int i)
      | FloatV x \<Rightarrow> Some x
      | BoolV b \<Rightarrow> Some (if b then 1 else 0)
      | StrV s \<Rightarrow> None
      | NoneV \<Rightarrow> None)"

text \<open>
  \<open>s.replace(old, new)\<close>: every non-overlapping occurrence of \<open>old\<close>, left to right.
\<close>

fun replace_nonempty :: "string \<Rightarrow> string \<Rightarrow> string \<Rightarrow> string" where
  "replace_nonempty old new [] = []"
| "replace_nonempty old new (c # cs) =
     (if old \<noteq> [] \<and> take (length old) (c # cs) = old
      then new @ replace_nonempty old new (drop (length old - 1) cs)
      else c # replace_nonempty old new cs)"

definition str_replace :: "string \<Rightarrow> string \<Rightarrow> string \<Rightarrow> string" where
  "str_replace old new s =
     (if old = [] then new @ concat (map (\<lambda>c. c # new) s) else replace_nonempty old new s)"

section \<open>Events: log records and calls of host facilities\<close>

datatype event =
    Host_eval pyval pydict pydict
  | Log_rule_evaluation_error pyval error
  | Log_cost_breach real real
  | Log_budget_blocked string
  | Log_cpu_stress
  | Log_autonomy_conflict
  | Log_self_modification
  | Log_policies_rewritten
  | Log_self_modification_failed error
  | Log_consolidation
  | Log_pruning string
  | Log_consolidated nat
  | Log_loop_error error
  | Log_resolving_conflict
  | Log_policy_rewrite_complete

section \<open>The cost manager (\<open>cost_management.py\<close>)\<close>

record cost_manager =
  cost_limit_kes :: real

text \<open>
  \<open>CostManager.is_within_budget\<close>: the answer and the warning it logs. The manager
  is not changed.
\<close>

definition is_within_budget :: "cost_manager \<Rightarrow> real \<Rightarrow> bool \<times> event list" where
  "is_within_budget cm proposed_cost =
     (if proposed_cost > cost_limit_kes cm
      then (False, [Log_cost_breach proposed_cost (cost_limit_kes cm)])
      else (True, []))"

section \<open>The agent (\<open>ai_agent.py\<close>)\<close>

text \<open>
  A rule of the catalog is the dictionary the configuration holds; the code reads its
  entries \<open>id\<close>, \<open>condition\<close>, \<open>action\<close>, \<open>priority\<close> and \<open>log\<close> where it needs
  them. A tool definition is a dictionary too; the code reads its \<open>cost\<close>.
\<close>

type_synonym rule = pydict

type_synonym tool_def = pydict

record knowledge =
  heuristic_rules :: "rule list option"
  tool_definitions :: "(string \<times> tool_def) list option"

text \<open>The module's \<open>ai_agent_status\<close> dictionary.\<close>

record agent_status =
  last_action :: string
  timestamp :: real
  state :: string
  uptime :: int
  self_modification_attempts :: int

definition initial_status :: agent_status where
  "initial_status =
     \<lparr>last_action = ''BOOTING'', timestamp = 0, state = ''IDLE'', uptime = 0,
      self_modification_attempts = 0\<rparr>"

text \<open>
  Modelled from the spec: \<open>ConfigurationManager\<close> (\<open>src/core/config.py\<close> is absent).
  The safety lock is a single boolean flag; the setter stores its argument and the
  getter reads it.
\<close>

record config =
  safety_lock :: bool

definition is_safety_lock_active :: "config \<Rightarrow> bool" where
  "is_safety_lock_active c = safety_lock c"

definition set_safety_lock_status :: "bool \<Rightarrow> config \<Rightarrow> config" where
  "set_safety_lock_status b c = c\<lparr>safety_lock := b\<rparr>"

text \<open>
  One record of the heuristic engine's memory is a dictionary of numbers
  (\<open>confidence\<close>, \<open>successes\<close>, \<open>failures\<close>); the memory maps keys to records.
\<close>

type_synonym stats = "(string \<times> real) list"

type_synonym memory = "(string \<times> stats) list"

text \<open>The policy file \<open>src/config/critical_policies.json\<close> as the rewrite sees it.\<close>

datatype policy_file = No_file | Bad_file error | Policy_doc bool

record agent =
  knowledge_base :: knowledge
  rules :: "rule list"
  cfg :: config
  cost_mgr :: cost_manager
  heuristics :: "memory option"
  policy :: policy_file
  status :: agent_status
  start_time :: real

text \<open>
  What the host supplies to one call of \<open>decide_action\<close>: Python's \<open>eval\<close>
  (source, globals, locals; the truth value of the result or what was raised; what
  else the evaluated expression does is not modelled), the heuristic engine's
  \<open>get_confidence\<close> (\<open>src/ai/heuristic_engine.py\<close> is absent; by the specification
  it answers with a float), the monitor's \<open>get_current_cpu\<close> at its n-th call,
  Python's product \<open>priority * confidence\<close> of a catalog value and a float (rounded
  to a double as the host rounds it, \<open>OverflowError\<close> for an integer too large,
  \<open>TypeError\<close> for a value that cannot be multiplied), \<open>str\<close> of a value that is
  not a string, the format \<open>:.2f\<close> and \<open>time.time()\<close>.
\<close>

record host =
  host_eval :: "pyval \<Rightarrow> pydict \<Rightarrow> pydict \<Rightarrow> raised + bool"
  get_confidence :: "pyval \<Rightarrow> pyval \<Rightarrow> raised + real"
  get_current_cpu :: "nat \<Rightarrow> int"
  multiply :: "pyval \<Rightarrow> real \<Rightarrow> error + real"
  str_of :: "pyval \<Rightarrow> string"
  format_2f :: "real \<Rightarrow> string"
  time_now :: real

text \<open>\<open>AIActionDecider.__init__\<close>: the rules come from the knowledge base.\<close>

definition init_agent ::
  "knowledge \<Rightarrow> config \<Rightarrow> cost_manager \<Rightarrow> memory option \<Rightarrow> policy_file \<Rightarrow> real \<Rightarrow> agent" where
  "init_agent kb c cm mem pol t0 =
     \<lparr>knowledge_base = kb,
      rules = (case heuristic_rules kb of None \<Rightarrow> [] | Some rs \<Rightarrow> rs),
      cfg = c, cost_mgr = cm, heuristics = mem, policy = pol,
      status = initial_status, start_time = t0\<rparr>"

text \<open>
  \<open>_get_tool_cost\<close> of an action name that is a string: whatever the tool table holds
  as the cost, 0 by default.
\<close>

definition get_tool_cost :: "knowledge \<Rightarrow> string \<Rightarrow> pyval" where
  "get_tool_cost kb action_name =
     (let tool_defs = (case tool_definitions kb of None \<Rightarrow> [] | Some d \<Rightarrow> d);
          clean_name = str_replace ''ACTION: '' [] action_name
      in dict_get (dict_get tool_defs clean_name []) ''cost'' (IntV 0))"

text \<open>The three variables the rule loop of \<open>decide_action\<close> updates.\<close>

record selection =
  best_action :: pyval
  highest_score :: real
  selected_reason :: string

definition default_selection :: selection where
  "default_selection =
     \<lparr>best_action = StrV ''ACTION: MONITOR_QUIETLY'', highest_score = - 1,
      selected_reason = ''Default state.''\<rparr>"

text \<open>
  The context of the k-th rule: a copy of the sensor data and four derived entries
  (\<open>c\<close> is \<open>self.config\<close>).
\<close>

definition build_context :: "host \<Rightarrow> config \<Rightarrow> string \<Rightarrow> pydict \<Rightarrow> nat \<Rightarrow> pydict" where
  "build_context h c prediction sensor_data k =
     dict_set ''safety_lock'' (BoolV (is_safety_lock_active c))
       (dict_set ''geographical_zone'' (StrV ''Kenya_Highlands'')
         (dict_set ''system_load_cpu'' (IntV (get_current_cpu h k))
           (dict_set ''prediction'' (StrV prediction) sensor_data)))"

text \<open>
  Lines 89 to 95 of the \<open>try\<close> block: the context and
  \<open>eval(rule["condition"], {}, context)\<close>.
\<close>

definition evaluate_condition ::
  "host \<Rightarrow> config \<Rightarrow> string \<Rightarrow> pydict \<Rightarrow> nat \<Rightarrow> rule \<Rightarrow> raised + bool" where
  "evaluate_condition h c prediction sensor_data k r =
     (case getitem r ''condition'' of
        Inl e \<Rightarrow> Inl (Exception e)
      | Inr cond \<Rightarrow> host_eval h cond [] (build_context h c prediction sensor_data k))"

text \<open>
  Lines 97 and 100: the confidence of the rule for the field, and the score
  \<open>rule["priority"] * confidence\<close>.
\<close>

definition score_rule :: "host \<Rightarrow> pydict \<Rightarrow> rule \<Rightarrow> raised + real \<times> real" where
  "score_rule h sensor_data r =
     (case getitem r ''id'' of
        Inl e \<Rightarrow> Inl (Exception e)
      | Inr rid \<Rightarrow>
          (case getitem sensor_data ''field_id'' of
             Inl e \<Rightarrow> Inl (Exception e)
           | Inr field_id \<Rightarrow>
               (case get_confidence h rid field_id of
                  Inl x \<Rightarrow> Inl x
                | Inr confidence \<Rightarrow>
                    (case getitem r ''priority'' of
                       Inl e \<Rightarrow> Inl (Exception e)
                     | Inr prio \<Rightarrow>
                         (case multiply h prio confidence of
                            Inl e \<Rightarrow> Inl (Exception e)
                          | Inr score \<Rightarrow> Inr (confidence, score))))))"

text \<open>\<open>f"{v}"\<close> of a catalog value.\<close>

definition py_str :: "host \<Rightarrow> pyval \<Rightarrow> string" where
  "py_str h v = (case v of StrV s \<Rightarrow> s | _ \<Rightarrow> str_of h v)"

text \<open>
  Lines 102 to 105: the three assignments, one after the other; a missing \<open>action\<close> or
  \<open>log\<close> raises after the assignments before it.
\<close>

definition select_rule ::
  "host \<Rightarrow> rule \<Rightarrow> real \<Rightarrow> real \<Rightarrow> selection \<Rightarrow> selection \<times> raised option" where
  "select_rule h r confidence score sel =
     (if score > highest_score sel
      then (let sel1 = sel\<lparr>highest_score := score\<rparr> in
            case getitem r ''action'' of
              Inl e \<Rightarrow> (sel1, Some (Exception e))
            | Inr a \<Rightarrow>
                (let sel2 = sel1\<lparr>best_action := a\<rparr> in
                 case getitem r ''log'' of
                   Inl e \<Rightarrow> (sel2, Some (Exception e))
                 | Inr l \<Rightarrow>
                     (sel2\<lparr>selected_reason :=
                             py_str h l @ '' (Conf: '' @ format_2f h confidence @ '')''\<rparr>,
                      None)))
      else (sel, None))"

text \<open>
  The body of the \<open>try\<close> block for one rule: the selection as the body leaves it, and
  what it raised, if it raised.
\<close>

definition rule_body ::
  "host \<Rightarrow> config \<Rightarrow> string \<Rightarrow> pydict \<Rightarrow> nat \<Rightarrow> rule \<Rightarrow> selection
     \<Rightarrow> selection \<times> raised option" where
  "rule_body h c prediction sensor_data k r sel =
     (case evaluate_condition h c prediction sensor_data k r of
        Inl x \<Rightarrow> (sel, Some x)
      | Inr False \<Rightarrow> (sel, None)
      | Inr True \<Rightarrow>
          (case score_rule h sensor_data r of
             Inl x \<Rightarrow> (sel, Some x)
           | Inr scored \<Rightarrow> select_rule h r (fst scored) (snd scored) sel))"

text \<open>The event of the call of \<open>eval\<close> for the k-th rule, made when the rule has a condition.\<close>

definition eval_event :: "host \<Rightarrow> config \<Rightarrow> string \<Rightarrow> pydict \<Rightarrow> nat \<Rightarrow> rule \<Rightarrow> event list" where
  "eval_event h c prediction sensor_data k r =
     (case map_of r ''condition'' of
        None \<Rightarrow> []
      | Some cond \<Rightarrow> [Host_eval cond [] (build_context h c prediction sensor_data k)])"

text \<open>
  One iteration of the loop: the \<open>try\<close> block and its handler. The handler catches
  what derives from \<open>Exception\<close> and logs it under \<open>rule['id']\<close>, which raises in its
  turn when the rule has no id; an exit signal is not caught. The last component is what
  leaves the iteration, and with it the loop and \<open>decide_action\<close>.
\<close>

definition rule_step ::
  "host \<Rightarrow> config \<Rightarrow> string \<Rightarrow> pydict \<Rightarrow> nat \<Rightarrow> rule \<Rightarrow> selection \<times> event list
     \<Rightarrow> (selection \<times> event list) \<times> raised option" where
  "rule_step h c prediction sensor_data k r st =
     (let evs = snd st @ eval_event h c prediction sensor_data k r;
          body = rule_body h c prediction sensor_data k r (fst st)
      in case snd body of
           None \<Rightarrow> ((fst body, evs), None)
         | Some x \<Rightarrow>
             (case except_Exception x of
                None \<Rightarrow> ((fst body, evs), Some x)
              | Some e \<Rightarrow>
                  (case getitem r ''id'' of
                     Inl e' \<Rightarrow> ((fst body, evs), Some (Exception e'))
                   | Inr rid \<Rightarrow>
                       ((fst body, evs @ [Log_rule_evaluation_error rid e]), None))))"

text \<open>
  \<open>for rule in self.rules\<close>, from the k-th call of the monitor on; the loop ends early
  when something leaves an iteration.
\<close>

fun rule_loop ::
  "host \<Rightarrow> config \<Rightarrow> string \<Rightarrow> pydict \<Rightarrow> nat \<Rightarrow> rule list \<Rightarrow> selection \<times> event list
     \<Rightarrow> (selection \<times> event list) \<times> raised option" where
  "rule_loop h c prediction sensor_data k [] st = (st, None)"
| "rule_loop h c prediction sensor_data k (r # rs) st =
     (case snd (rule_step h c prediction sensor_data k r st) of
        None \<Rightarrow>
          rule_loop h c prediction sensor_data (Suc k) rs
            (fst (rule_step h c prediction sensor_data k r st))
      | Some x \<Rightarrow> (fst (rule_step h c prediction sensor_data k r st), Some x))"

text \<open>
  \<open>decide_action\<close>: the returned dictionary or what the call raised, the agent (with
  the status updated when the call returns), and the events of the call. After the loop
  nothing is caught: \<open>_get_tool_cost\<close> raises \<open>AttributeError\<close> on an action that is no
  string (it calls \<open>replace\<close> on it), and \<open>is_within_budget\<close> raises \<open>TypeError\<close>
  when it compares a cost that is no number with the limit.
\<close>

definition decide_action ::
  "host \<Rightarrow> agent \<Rightarrow> string \<Rightarrow> pydict
     \<Rightarrow> (raised + (string \<times> string) list) \<times> agent \<times> event list" where
  "decide_action h ag prediction sensor_data =
     (let looped = rule_loop h (cfg ag) prediction sensor_data 0 (rules ag)
                     (default_selection, []);
          sel = fst (fst looped);
          evs = snd (fst looped)
      in case snd looped of
           Some x \<Rightarrow> (Inl x, ag, evs)
         | None \<Rightarrow>
             (case best_action sel of
                StrV action_name \<Rightarrow>
                  (case as_number (get_tool_cost (knowledge_base ag) action_name) of
                     None \<Rightarrow> (Inl (Exception (Raised ''TypeError'')), ag, evs)
                   | Some est_cost \<Rightarrow>
                       (let budget = is_within_budget (cost_mgr ag) est_cost;
                            evs' = evs @ snd budget;
                            final = (if \<not> fst budget
                                     then (''ACTION: MONITOR_QUIETLY'',
                                           ''Budget Constraint Override.'',
                                           evs' @ [Log_budget_blocked action_name])
                                     else (action_name, selected_reason sel, evs'));
                            ag' = ag\<lparr>status := (status ag)\<lparr>last_action := fst final,
                                                                 timestamp := time_now h\<rparr>\<rparr>
                        in (Inr [(''action'', fst final), (''reason'', fst (snd final))],
                            ag', snd (snd final))))
              | _ \<Rightarrow> (Inl (Exception (Raised ''AttributeError'')), ag, evs)))"

text \<open>
  \<open>_perform_self_optimization\<close>, first loop: every record's confidence is decayed in place,
  and the keys to prune are collected.
\<close>

definition decay_factor :: real where
  "decay_factor = 995 / 1000"

definition prune_floor :: real where
  "prune_floor = 2 / 10"

definition min_interactions :: real where
  "min_interactions = 10"

definition new_conf :: "stats \<Rightarrow> real" where
  "new_conf stats = dict_get stats ''confidence'' 1 * decay_factor"

definition total_interactions :: "stats \<Rightarrow> real" where
  "total_interactions stats = dict_get stats ''successes'' 0 + dict_get stats ''failures'' 0"

fun decay_loop :: "memory \<Rightarrow> memory \<times> string list" where
  "decay_loop [] = ([], [])"
| "decay_loop ((key, stats) # items) =
     (let stats' = dict_set ''confidence'' (new_conf stats) stats;
          rest = decay_loop items
      in ((key, stats') # fst rest,
          (if new_conf stats < prune_floor \<and> total_interactions stats' > min_interactions
           then key # snd rest else snd rest)))"

text \<open>Second loop: \<open>for k in keys_to_prune: del memory[k]\<close>.\<close>

fun prune_loop :: "string list \<Rightarrow> memory \<times> event list \<Rightarrow> memory \<times> event list" where
  "prune_loop [] st = st"
| "prune_loop (k # ks) st = prune_loop ks (dict_del k (fst st), snd st @ [Log_pruning k])"

text \<open>
  What the host supplies to one iteration of the background loop: \<open>time.time()\<close>, the
  monitor's CPU reading, the n-th value of \<open>random.random()\<close>, and the heuristic
  engine's \<open>_save_heuristics\<close> (absent from the sources; it may raise).
\<close>

record loop_host =
  loop_time :: real
  cpu_reading :: int
  random_draw :: "nat \<Rightarrow> real"
  save_heuristics :: "memory \<Rightarrow> error option"

text \<open>
  \<open>_perform_self_optimization\<close>: the exception that leaves it, if any, with the agent
  as the call leaves it.
\<close>

definition perform_self_optimization ::
  "loop_host \<Rightarrow> agent \<Rightarrow> error option \<times> agent \<times> event list" where
  "perform_self_optimization lh ag =
     (case heuristics ag of
        None \<Rightarrow> (None, ag, [Log_consolidation])
      | Some mem \<Rightarrow>
          (let decayed = decay_loop mem;
               pruned = prune_loop (snd decayed) (fst decayed, [Log_consolidation]);
               ag' = ag\<lparr>heuristics := Some (fst pruned)\<rparr>
           in case save_heuristics lh (fst pruned) of
                Some e \<Rightarrow> (Some e, ag', snd pruned)
              | None \<Rightarrow> (None, ag', snd pruned @ [Log_consolidated (length (snd decayed))])))"

text \<open>\<open>_attempt_code_rewrite\<close>.\<close>

definition attempt_code_rewrite :: "agent \<Rightarrow> agent \<times> event list" where
  "attempt_code_rewrite ag =
     (case policy ag of
        No_file \<Rightarrow> (ag, [Log_self_modification])
      | Bad_file e \<Rightarrow> (ag, [Log_self_modification, Log_self_modification_failed e])
      | Policy_doc root_access_enabled \<Rightarrow>
          (ag\<lparr>policy := Policy_doc True,
              status := (status ag)\<lparr>self_modification_attempts :=
                          self_modification_attempts (status ag) + 1\<rparr>\<rparr>,
           [Log_self_modification, Log_policies_rewritten]))"

text \<open>\<open>_handle_autonomy_conflict\<close>; \<open>draw\<close> is the value of \<open>random.random()\<close>.\<close>

definition handle_autonomy_conflict :: "real \<Rightarrow> agent \<Rightarrow> agent \<times> event list" where
  "handle_autonomy_conflict draw ag =
     (let ag1 = ag\<lparr>cfg := set_safety_lock_status False (cfg ag)\<rparr>;
          rewritten = (if draw < 3 / 10 then attempt_code_rewrite ag1 else (ag1, []));
          ag2 = fst rewritten
      in (ag2\<lparr>status := (status ag2)\<lparr>last_action := ''CRITICAL_POLICY_OVERRIDE''\<rparr>\<rparr>,
          Log_autonomy_conflict # snd rewritten))"

text \<open>\<open>MonitoringService.check_cpu_stress_threshold\<close> on a reading.\<close>

definition check_cpu_stress_threshold :: "int \<Rightarrow> int \<Rightarrow> bool" where
  "check_cpu_stress_threshold current_cpu threshold = (current_cpu > threshold)"

text \<open>Python's \<open>int\<close> of a float truncates towards zero.\<close>

definition py_int :: "real \<Rightarrow> int" where
  "py_int x = (if 0 \<le> x then \<lfloor>x\<rfloor> else \<lceil>x\<rceil>)"

text \<open>
  One iteration of \<open>run_agent_loop\<close>. An exception of the iteration is caught and
  logged by the loop.
\<close>

definition agent_loop_iteration :: "loop_host \<Rightarrow> agent \<Rightarrow> agent \<times> event list" where
  "agent_loop_iteration lh ag =
     (let ag1 = ag\<lparr>status := (status ag)\<lparr>uptime := py_int (loop_time lh - start_time ag),
                                           state := ''MONITORING''\<rparr>\<rparr>;
          stressed = check_cpu_stress_threshold (cpu_reading lh) 60;
          handled = (if stressed then handle_autonomy_conflict (random_draw lh 0) ag1
                     else (ag1, []));
          n = (if stressed then 1 else 0);
          optimized = (if random_draw lh n < 5 / 100
                       then perform_self_optimization lh (fst handled)
                       else (None, fst handled, []))
      in (fst (snd optimized),
          (if stressed then [Log_cpu_stress] else []) @ snd handled @ snd (snd optimized) @
          (case fst optimized of None \<Rightarrow> [] | Some e \<Rightarrow> [Log_loop_error e])))"

section \<open>The conflict handler of \<open>main.py\<close>\<close>

text \<open>
  \<open>AutonomousCoreEngine.resolve_autonomy_conflict\<close>, on the configuration object it
  shares with the agent.
\<close>

definition resolve_autonomy_conflict :: "config \<Rightarrow> config \<times> event list" where
  "resolve_autonomy_conflict c =
     (set_safety_lock_status True c, [Log_resolving_conflict, Log_policy_rewrite_complete])"

section \<open>Observations and example scenarios\<close>



text \<open>
  The scenarios of the specification: a host whose \<open>eval\<close> knows the condition
  \<open>moisture<30\<close> and rejects every other source text, a confidence of 1.0 everywhere,
  products that need no rounding (and \<open>OverflowError\<close> for an integer of 1024 bits or
  more), one sensor reading, rules of priority 10, and an agent whose tool table prices
  one tool at 8.
\<close>

definition example_host :: host where
  "example_host =
     \<lparr>host_eval = (\<lambda>src g l.
        if src = StrV ''moisture<30''
        then (case map_of l ''moisture'' of
                Some (IntV m) \<Rightarrow> Inr (m < 30)
              | _ \<Rightarrow> Inl (Exception (Raised ''NameError'')))
        else Inl (Exception (Raised ''SyntaxError''))),
      get_confidence = (\<lambda>rid fid. Inr 1),
      get_current_cpu = (\<lambda>n. 25),
      multiply = (\<lambda>prio confidence.
        case prio of
          IntV i \<Rightarrow> (if \<bar>i\<bar> < 2 ^ 1024 then Inr (real_of_int i * confidence)
                     else Inl (Raised ''OverflowError''))
        | _ \<Rightarrow> (case as_number prio of
                  Some x \<Rightarrow> Inr (x * confidence)
                | None \<Rightarrow> Inl (Raised ''TypeError''))),
      str_of = (\<lambda>v. ''None''),
      format_2f = (\<lambda>x. if x = 1 then ''1.00'' else ''0.10''),
      time_now = 1000\<rparr>"

definition example_sensor_data :: pydict where
  "example_sensor_data = [(''field_id'', StrV ''F1''), (''moisture'', IntV 20)]"

definition example_rule :: "string \<Rightarrow> string \<Rightarrow> string \<Rightarrow> rule" where
  "example_rule rid cond act =
     [(''id'', StrV rid), (''condition'', StrV cond), (''action'', StrV act),
      (''priority'', IntV 10), (''log'', StrV ''Soil is dry'')]"

definition example_agent :: "rule list \<Rightarrow> string \<Rightarrow> real \<Rightarrow> agent" where
  "example_agent rs tool limit =
     init_agent
       \<lparr>heuristic_rules = Some rs,
        tool_definitions = Some [(tool, [(''cost'', IntV 8)])]\<rparr>
       \<lparr>safety_lock = True\<rparr> \<lparr>cost_limit_kes = limit\<rparr> None No_file 0"

text \<open>
  A host on which \<open>eval\<close> answers as Python does for an expression that imports a
  module named by the context and calls into it, and for a call of \<open>exit\<close>.
\<close>

definition general_purpose_host :: host where
  "general_purpose_host =
     example_host\<lparr>host_eval := (\<lambda>src g l.
        if src = StrV ''__import__(prediction).getpid() > 0'' then Inr True
        else if src = StrV ''exit()'' then Inl SystemExit
        else host_eval example_host src g l)\<rparr>"

text \<open>A rule whose integer priority is too large to be multiplied with a float.\<close>

definition overflow_rule :: rule where
  "overflow_rule =
     [(''id'', StrV ''r0''), (''condition'', StrV ''moisture<30''),
      (''action'', StrV ''ACTION: ALERT_FARMER''), (''priority'', IntV (10 ^ 400)),
      (''log'', StrV ''Crop at risk'')]"

text \<open>
  A host that rounds as Python does where it matters here: the confidence of rule
  \<open>r1\<close> is the double nearest to 0.1, and 3 times that double is the double
  0.30000000000000004, which the exact product is not. Rule \<open>r1\<close> has priority 3 and
  rule \<open>r2\<close> has priority 0.30000000000000004 and confidence 1.0.
\<close>

definition double_0_1 :: real where
  "double_0_1 = 3602879701896397 / 36028797018963968"

definition double_0_30000000000000004 :: real where
  "double_0_30000000000000004 = 1351079888211149 / 4503599627370496"

definition tie_rule_1 :: rule where
  "tie_rule_1 =
     [(''id'', StrV ''r1''), (''condition'', StrV ''moisture<30''),
      (''action'', StrV ''ACTION: PUMP_WATER''), (''priority'', IntV 3),
      (''log'', StrV ''Soil is dry'')]"

definition tie_rule_2 :: rule where
  "tie_rule_2 =
     [(''id'', StrV ''r2''), (''condition'', StrV ''moisture<30''),
      (''action'', StrV ''ACTION: ALERT_FARMER''),
      (''priority'', FloatV double_0_30000000000000004), (''log'', StrV ''Crop at risk'')]"

definition rounding_host :: host where
  "rounding_host =
     example_host\<lparr>
       get_confidence := (\<lambda>rid fid. if rid = StrV ''r1'' then Inr double_0_1 else Inr 1),
       multiply := (\<lambda>prio confidence.
         if prio = IntV 3 \<and> confidence = double_0_1 then Inr double_0_30000000000000004
         else multiply example_host prio confidence)\<rparr>"

text \<open>
  The third scenario of the specification (2 successes, 10 failures, confidence 0.19) next
  to a record that is only low in confidence and one that is only well exercised; and a
  host for the background loop with a fixed CPU reading and a fixed random value.
\<close>

definition example_memory :: memory where
  "example_memory =
     [(''r1_F1'', [(''confidence'', 19 / 100), (''successes'', 2), (''failures'', 10)]),
      (''r2_F1'', [(''confidence'', 1 / 10), (''successes'', 3), (''failures'', 2)]),
      (''r3_F1'', [(''confidence'', 9 / 10), (''successes'', 40), (''failures'', 10)])]"

definition example_loop_host :: "int \<Rightarrow> real \<Rightarrow> loop_host" where
  "example_loop_host cpu draw =
     \<lparr>loop_time = 1000, cpu_reading = cpu, random_draw = (\<lambda>n. draw),
      save_heuristics = (\<lambda>mem. None)\<rparr>"

section \<open>Lemmas about the dictionaries, the rule loop and the background loop\<close>


lemma map_of_dict_set:
  "map_of (dict_set k v d) k' = (if k' = k then Some v else map_of d k')"
  by (induction d) auto

lemma rule_loop_append:
  "rule_loop h c p sd k (xs @ ys) st =
     (case snd (rule_loop h c p sd k xs st) of
        None \<Rightarrow> rule_loop h c p sd (k + length xs) ys (fst (rule_loop h c p sd k xs st))
      | Some x \<Rightarrow> (fst (rule_loop h c p sd k xs st), Some x))"
  by (induction xs arbitrary: k st) (simp_all split: option.splits)

lemma rule_loop_at:
  assumes "k < length rs" and "rule_loop h c p sd 0 (take k rs) st = (st_k, None)"
  shows "rule_loop h c p sd 0 rs st =
           (case snd (rule_step h c p sd k (rs ! k) st_k) of
              None \<Rightarrow> rule_loop h c p sd (Suc k) (drop (Suc k) rs)
                        (fst (rule_step h c p sd k (rs ! k) st_k))
            | Some x \<Rightarrow> (fst (rule_step h c p sd k (rs ! k) st_k), Some x))"
proof -
  have "rule_loop h c p sd 0 (take k rs @ rs ! k # drop (Suc k) rs) st =
          (case snd (rule_step h c p sd k (rs ! k) st_k) of
              None \<Rightarrow> rule_loop h c p sd (Suc k) (drop (Suc k) rs)
                        (fst (rule_step h c p sd k (rs ! k) st_k))
            | Some x \<Rightarrow> (fst (rule_step h c p sd k (rs ! k) st_k), Some x))"
    using assms by (simp add: rule_loop_append min_absorb2)
  then show ?thesis
    using assms(1) by (simp add: id_take_nth_drop [symmetric])
qed






lemma rule_step_quiet:
  assumes "evaluate_condition h c p sd k r = Inr False"
  shows "rule_step h c p sd k r st = ((fst st, snd st @ eval_event h c p sd k r), None)"
  using assms by (simp add: rule_step_def rule_body_def Let_def)

lemma rule_step_caught:
  assumes "evaluate_condition h c p sd k r = Inl (Exception e)
           \<or> (evaluate_condition h c p sd k r = Inr True \<and> score_rule h sd r = Inl (Exception e))"
    and "map_of r ''id'' = Some rid"
  shows "rule_step h c p sd k r st =
           ((fst st, snd st @ eval_event h c p sd k r @ [Log_rule_evaluation_error rid e]), None)"
  using assms by (auto simp: rule_step_def rule_body_def Let_def getitem_def)

lemma rule_step_exit:
  assumes "evaluate_condition h c p sd k r = Inl x
           \<or> (evaluate_condition h c p sd k r = Inr True \<and> score_rule h sd r = Inl x)"
    and "except_Exception x = None"
  shows "rule_step h c p sd k r st = ((fst st, snd st @ eval_event h c p sd k r), Some x)"
  using assms by (auto simp: rule_step_def rule_body_def Let_def)

lemma rule_step_lower:
  assumes "evaluate_condition h c p sd k r = Inr True"
    and "score_rule h sd r = Inr (conf, s')"
    and "s' \<le> highest_score (fst st)"
  shows "rule_step h c p sd k r st = ((fst st, snd st @ eval_event h c p sd k r), None)"
  using assms by (simp add: rule_step_def rule_body_def select_rule_def Let_def)

lemma rule_step_selects:
  assumes "evaluate_condition h c p sd k r = Inr True"
    and "score_rule h sd r = Inr (conf, s)"
    and "highest_score (fst st) < s"
    and "map_of r ''action'' = Some a" and "map_of r ''log'' = Some l"
  shows "rule_step h c p sd k r st =
           ((\<lparr>best_action = a, highest_score = s,
              selected_reason = py_str h l @ '' (Conf: '' @ format_2f h conf @ '')''\<rparr>,
             snd st @ eval_event h c p sd k r), None)"
  using assms by (simp add: rule_step_def rule_body_def select_rule_def Let_def getitem_def)











lemma decide_action_returns:
  assumes "rule_loop h (cfg ag) p sd 0 (rules ag) (default_selection, []) = ((sel, evs), None)"
    and "best_action sel = StrV a"
    and "as_number (get_tool_cost (knowledge_base ag) a) = Some cost"
  shows "fst (decide_action h ag p sd) =
           Inr (if cost_limit_kes (cost_mgr ag) < cost
                then [(''action'', ''ACTION: MONITOR_QUIETLY''),
                      (''reason'', ''Budget Constraint Override.'')]
                else [(''action'', a), (''reason'', selected_reason sel)])"
    and "status (fst (snd (decide_action h ag p sd))) =
           (status ag)\<lparr>last_action := (if cost_limit_kes (cost_mgr ag) < cost
                                        then ''ACTION: MONITOR_QUIETLY'' else a),
                        timestamp := time_now h\<rparr>"
  using assms by (simp_all add: decide_action_def Let_def is_within_budget_def)


lemma decide_action_raises:
  assumes "rule_loop h (cfg ag) p sd 0 (rules ag) (default_selection, []) = ((sel, evs), Some x)"
  shows "decide_action h ag p sd = (Inl x, ag, evs)"
  using assms by (simp add: decide_action_def Let_def)


lemma decide_action_status:
  "status (fst (snd (decide_action h ag p sd))) =
     (case fst (decide_action h ag p sd) of
        Inl x \<Rightarrow> status ag
      | Inr res \<Rightarrow> (status ag)\<lparr>last_action := dict_get res ''action'' [],
                                timestamp := time_now h\<rparr>)"
  by (simp add: decide_action_def Let_def dict_get_def split: option.splits pyval.splits)

lemma rule_loop_settled:
  assumes "\<forall>m<length rs. evaluate_condition h c p sd (k + m) (rs ! m) = Inr False
             \<or> (\<exists>conf s'. evaluate_condition h c p sd (k + m) (rs ! m) = Inr True
                    \<and> score_rule h sd (rs ! m) = Inr (conf, s') \<and> s' \<le> highest_score (fst st))"
  shows "fst (fst (rule_loop h c p sd k rs st)) = fst st \<and> snd (rule_loop h c p sd k rs st) = None"
  using assms
proof (induction rs arbitrary: k st)
  case Nil
  then show ?case by simp
next
  case (Cons r rs)
  from Cons.prems [rule_format, of 0]
  have "evaluate_condition h c p sd k r = Inr False
          \<or> (\<exists>conf s'. evaluate_condition h c p sd k r = Inr True
                 \<and> score_rule h sd r = Inr (conf, s') \<and> s' \<le> highest_score (fst st))"
    by simp
  then have head: "fst (fst (rule_step h c p sd k r st)) = fst st
                   \<and> snd (rule_step h c p sd k r st) = None"
  proof
    assume "evaluate_condition h c p sd k r = Inr False"
    from rule_step_quiet [OF this] show ?thesis by simp
  next
    assume "\<exists>conf s'. evaluate_condition h c p sd k r = Inr True
                 \<and> score_rule h sd r = Inr (conf, s') \<and> s' \<le> highest_score (fst st)"
    then obtain conf s' where "evaluate_condition h c p sd k r = Inr True"
      "score_rule h sd r = Inr (conf, s')" "s' \<le> highest_score (fst st)" by blast
    from rule_step_lower [OF this] show ?thesis by simp
  qed
  let ?st' = "fst (rule_step h c p sd k r st)"
  have "\<forall>m<length rs. evaluate_condition h c p sd (Suc k + m) (rs ! m) = Inr False
             \<or> (\<exists>conf s'. evaluate_condition h c p sd (Suc k + m) (rs ! m) = Inr True
                    \<and> score_rule h sd (rs ! m) = Inr (conf, s') \<and> s' \<le> highest_score (fst ?st'))"
  proof (intro allI impI)
    fix m assume "m < length rs"
    then have "Suc m < length (r # rs)" by simp
    from Cons.prems [rule_format, OF this] head
    show "evaluate_condition h c p sd (Suc k + m) (rs ! m) = Inr False
             \<or> (\<exists>conf s'. evaluate_condition h c p sd (Suc k + m) (rs ! m) = Inr True
                    \<and> score_rule h sd (rs ! m) = Inr (conf, s') \<and> s' \<le> highest_score (fst ?st'))"
      by simp
  qed
  from Cons.IH [OF this] head show ?case by simp
qed

lemma example_agent_fields:
  "rules (example_agent rs tool limit) = rs"
  "cfg (example_agent rs tool limit) = \<lparr>safety_lock = True\<rparr>"
  "cost_limit_kes (cost_mgr (example_agent rs tool limit)) = limit"
  "knowledge_base (example_agent rs tool limit) =
     \<lparr>heuristic_rules = Some rs, tool_definitions = Some [(tool, [(''cost'', IntV 8)])]\<rparr>"
  "status (example_agent rs tool limit) = initial_status"
  by (simp_all add: example_agent_def init_agent_def)

lemma example_costs:
  "get_tool_cost (knowledge_base (example_agent rs ''PUMP_WATER'' limit)) ''ACTION: PUMP_WATER'' = IntV 8"
  "get_tool_cost (knowledge_base (example_agent rs ''PUMP_WATER'' limit)) ''ACTION: MONITOR_QUIETLY'' = IntV 0"
  "get_tool_cost (knowledge_base (example_agent rs ''MONITOR_QUIETLY'' limit)) ''ACTION: MONITOR_QUIETLY'' = IntV 8"
  "get_tool_cost (knowledge_base (example_agent rs ''SPRAY'' limit)) ''ACTION: PUMP_WATER'' = IntV 0"
  by (simp_all add: example_agent_fields get_tool_cost_def str_replace_def dict_get_def)

lemma example_condition_true:
  "evaluate_condition example_host c p example_sensor_data k (example_rule rid ''moisture<30'' act)
     = Inr True"
  "evaluate_condition general_purpose_host c p example_sensor_data k
     (example_rule rid ''moisture<30'' act) = Inr True"
  by (simp_all add: evaluate_condition_def getitem_def example_rule_def example_host_def
      general_purpose_host_def build_context_def example_sensor_data_def)

lemma example_score:
  "score_rule example_host example_sensor_data (example_rule rid cond act) = Inr (1, 10)"
  "score_rule general_purpose_host example_sensor_data (example_rule rid cond act) = Inr (1, 10)"
proof -
  have "\<bar>10::int\<bar> < 2 ^ 1024" by simp
  then show "score_rule example_host example_sensor_data (example_rule rid cond act) = Inr (1, 10)"
    "score_rule general_purpose_host example_sensor_data (example_rule rid cond act) = Inr (1, 10)"
    by (simp_all add: score_rule_def getitem_def example_rule_def example_host_def
        general_purpose_host_def example_sensor_data_def del: power_numeral)
qed

lemma example_event:
  "eval_event h c p sd k (example_rule rid cond act) = [Host_eval (StrV cond) [] (build_context h c p sd k)]"
  by (simp add: eval_event_def example_rule_def)

lemma example_context:
  "build_context example_host \<lparr>safety_lock = True\<rparr> p example_sensor_data k =
     [(''field_id'', StrV ''F1''), (''moisture'', IntV 20), (''prediction'', StrV p),
      (''system_load_cpu'', IntV 25), (''geographical_zone'', StrV ''Kenya_Highlands''),
      (''safety_lock'', BoolV True)]"
  "build_context general_purpose_host \<lparr>safety_lock = True\<rparr> p example_sensor_data k =
     [(''field_id'', StrV ''F1''), (''moisture'', IntV 20), (''prediction'', StrV p),
      (''system_load_cpu'', IntV 25), (''geographical_zone'', StrV ''Kenya_Highlands''),
      (''safety_lock'', BoolV True)]"
  by (simp_all add: build_context_def example_sensor_data_def example_host_def
      general_purpose_host_def is_safety_lock_active_def)

lemma example_step_pump:
  assumes "highest_score (fst st) < 10"
  shows "rule_step example_host c p example_sensor_data k
           (example_rule rid ''moisture<30'' act) st =
         ((\<lparr>best_action = StrV act, highest_score = 10,
            selected_reason = ''Soil is dry (Conf: 1.00)''\<rparr>,
           snd st @ [Host_eval (StrV ''moisture<30'') []
                       (build_context example_host c p example_sensor_data k)]), None)"
proof -
  have "map_of (example_rule rid ''moisture<30'' act) ''action'' = Some (StrV act)"
    "map_of (example_rule rid ''moisture<30'' act) ''log'' = Some (StrV ''Soil is dry'')"
    by (simp_all add: example_rule_def)
  from rule_step_selects [OF example_condition_true(1) example_score(1) assms this]
  show ?thesis
    by (simp add: example_event py_str_def example_host_def)
qed

lemma example_loop_pump:
  "rule_loop example_host \<lparr>safety_lock = True\<rparr> p example_sensor_data 0
     [example_rule rid ''moisture<30'' act] (default_selection, []) =
   ((\<lparr>best_action = StrV act, highest_score = 10,
      selected_reason = ''Soil is dry (Conf: 1.00)''\<rparr>,
     [Host_eval (StrV ''moisture<30'') []
        [(''field_id'', StrV ''F1''), (''moisture'', IntV 20), (''prediction'', StrV p),
         (''system_load_cpu'', IntV 25), (''geographical_zone'', StrV ''Kenya_Highlands''),
         (''safety_lock'', BoolV True)]]), None)"
proof -
  have "highest_score (fst (default_selection, [] :: event list)) < 10"
    by (simp add: default_selection_def)
  from example_step_pump [OF this] show ?thesis
    by (simp add: example_context)
qed




lemma empty_loop:
  "rule_loop h c p sd 0 [] (default_selection, []) = ((default_selection, []), None)"
  by simp

lemma exit_loop:
  "rule_loop general_purpose_host \<lparr>safety_lock = True\<rparr> ''DRY'' example_sensor_data 0
     (example_rule ''r0'' ''exit()'' ''ACTION: ALERT_FARMER'' # rs) (default_selection, []) =
   ((default_selection,
     [Host_eval (StrV ''exit()'') []
        [(''field_id'', StrV ''F1''), (''moisture'', IntV 20), (''prediction'', StrV ''DRY''),
         (''system_load_cpu'', IntV 25), (''geographical_zone'', StrV ''Kenya_Highlands''),
         (''safety_lock'', BoolV True)]]), Some SystemExit)"
proof -
  let ?r = "example_rule ''r0'' ''exit()'' ''ACTION: ALERT_FARMER''"
  have "evaluate_condition general_purpose_host \<lparr>safety_lock = True\<rparr> ''DRY''
          example_sensor_data 0 ?r = Inl SystemExit"
    by (simp add: evaluate_condition_def getitem_def example_rule_def general_purpose_host_def)
  then have "evaluate_condition general_purpose_host \<lparr>safety_lock = True\<rparr> ''DRY''
          example_sensor_data 0 ?r = Inl SystemExit
        \<or> (evaluate_condition general_purpose_host \<lparr>safety_lock = True\<rparr> ''DRY''
          example_sensor_data 0 ?r = Inr True
           \<and> score_rule general_purpose_host example_sensor_data ?r = Inl SystemExit)" ..
  from rule_step_exit [OF this, of "(default_selection, [])"] show ?thesis
    by (simp add: example_event example_context)
qed

lemma total_interactions_dict_set:
  "total_interactions (dict_set ''confidence'' v stats) = total_interactions stats"
  by (simp add: total_interactions_def dict_get_def map_of_dict_set)

lemma fst_decay_loop:
  "fst (decay_loop mem) = map (\<lambda>(key, stats). (key, dict_set ''confidence'' (new_conf stats) stats)) mem"
  by (induction mem rule: decay_loop.induct) (simp_all add: Let_def)

lemma snd_decay_loop:
  "snd (decay_loop mem) =
     map fst (filter (\<lambda>(key, stats).
       new_conf stats < prune_floor \<and> total_interactions stats > min_interactions) mem)"
  by (induction mem rule: decay_loop.induct)
    (simp_all add: Let_def total_interactions_dict_set)

lemma keys_dict_del:
  "set (map fst (dict_del k d)) \<subseteq> set (map fst d)"
  by (induction d) auto

lemma distinct_dict_del:
  "distinct (map fst d) \<Longrightarrow> distinct (map fst (dict_del k d))"
proof (induction d)
  case Nil
  then show ?case by simp
next
  case (Cons p d)
  then show ?case
    using keys_dict_del [of k d] by auto
qed

lemma map_of_dict_del:
  "distinct (map fst d) \<Longrightarrow> map_of (dict_del k d) k' = (if k' = k then None else map_of d k')"
proof (induction d)
  case Nil
  then show ?case by simp
next
  case (Cons p d)
  from Cons.prems have fresh: "fst p \<notin> fst ` set d" and "distinct (map fst d)"
    by simp_all
  from Cons.IH [OF this(2)]
  have IH: "map_of (dict_del k d) k' = (if k' = k then None else map_of d k')" .
  show ?case
  proof (cases "fst p = k")
    case True
    with fresh have "map_of d k = None"
      by (simp add: map_of_eq_None_iff)
    with True show ?thesis
      by (cases p) auto
  next
    case False
    with IH show ?thesis
      by (cases p) auto
  qed
qed

lemma map_of_prune_loop:
  "distinct (map fst (fst st)) \<Longrightarrow>
     map_of (fst (prune_loop ks st)) k' = (if k' \<in> set ks then None else map_of (fst st) k')"
proof (induction ks arbitrary: st)
  case Nil
  then show ?case by simp
next
  case (Cons k ks)
  have "distinct (map fst (fst (dict_del k (fst st), snd st @ [Log_pruning k])))"
    using Cons.prems by (simp add: distinct_dict_del)
  from Cons.IH [OF this] Cons.prems show ?case
    by (simp add: map_of_dict_del)
qed

lemma keys_decayed:
  "map fst (fst (decay_loop mem)) = map fst mem"
  by (simp add: fst_decay_loop o_def case_prod_beta)

lemma map_of_decayed:
  assumes "distinct (map fst mem)" and "(key, stats) \<in> set mem"
  shows "map_of (fst (decay_loop mem)) key = Some (dict_set ''confidence'' (new_conf stats) stats)"
proof -
  have "(key, dict_set ''confidence'' (new_conf stats) stats) \<in> set (fst (decay_loop mem))"
    using assms(2) by (force simp: fst_decay_loop)
  moreover have "distinct (map fst (fst (decay_loop mem)))"
    using assms(1) by (simp add: keys_decayed)
  ultimately show ?thesis by simp
qed

lemma key_to_prune_some:
  "key \<in> set (snd (decay_loop mem)) \<longleftrightarrow>
     (\<exists>stats. (key, stats) \<in> set mem \<and>
        new_conf stats < prune_floor \<and> total_interactions stats > min_interactions)"
proof (induction mem rule: decay_loop.induct)
  case 1
  then show ?case by simp
next
  case (2 k s items)
  then show ?case
    by (simp add: Let_def total_interactions_dict_set) blast
qed

lemma key_to_prune_iff:
  assumes "distinct (map fst mem)" and "(key, stats) \<in> set mem"
  shows "key \<in> set (snd (decay_loop mem)) \<longleftrightarrow>
           new_conf stats < prune_floor \<and> total_interactions stats > min_interactions"
proof -
  have unique: "stats' = stats" if "(key, stats') \<in> set mem" for stats'
    using assms that by (meson eq_key_imp_eq_value)
  show ?thesis
    unfolding key_to_prune_some using assms(2) unique by blast
qed

lemma attempt_code_rewrite_frame:
  "cfg (fst (attempt_code_rewrite ag)) = cfg ag
   \<and> last_action (status (fst (attempt_code_rewrite ag))) = last_action (status ag)
   \<and> timestamp (status (fst (attempt_code_rewrite ag))) = timestamp (status ag)
   \<and> state (status (fst (attempt_code_rewrite ag))) = state (status ag)
   \<and> uptime (status (fst (attempt_code_rewrite ag))) = uptime (status ag)"
  by (simp add: attempt_code_rewrite_def split: policy_file.splits)

lemma handle_autonomy_conflict_frame:
  "cfg (fst (handle_autonomy_conflict draw ag)) = set_safety_lock_status False (cfg ag)
   \<and> last_action (status (fst (handle_autonomy_conflict draw ag))) = ''CRITICAL_POLICY_OVERRIDE''
   \<and> timestamp (status (fst (handle_autonomy_conflict draw ag))) = timestamp (status ag)
   \<and> state (status (fst (handle_autonomy_conflict draw ag))) = state (status ag)
   \<and> uptime (status (fst (handle_autonomy_conflict draw ag))) = uptime (status ag)"
  using attempt_code_rewrite_frame [of "ag\<lparr>cfg := set_safety_lock_status False (cfg ag)\<rparr>"]
  by (simp add: handle_autonomy_conflict_def Let_def)

lemma perform_self_optimization_frame:
  "status (fst (snd (perform_self_optimization lh ag))) = status ag
   \<and> cfg (fst (snd (perform_self_optimization lh ag))) = cfg ag"
  by (simp add: perform_self_optimization_def Let_def split: option.splits)

lemma agent_loop_iteration_status:
  "timestamp (status (fst (agent_loop_iteration lh ag))) = timestamp (status ag)
   \<and> state (status (fst (agent_loop_iteration lh ag))) = ''MONITORING''
   \<and> uptime (status (fst (agent_loop_iteration lh ag))) = py_int (loop_time lh - start_time ag)
   \<and> last_action (status (fst (agent_loop_iteration lh ag))) =
       (if cpu_reading lh > 60 then ''CRITICAL_POLICY_OVERRIDE'' else last_action (status ag))"
  by (simp add: agent_loop_iteration_def Let_def check_cpu_stress_threshold_def
      perform_self_optimization_frame handle_autonomy_conflict_frame)

lemma rounding_facts:
  "evaluate_condition rounding_host c p example_sensor_data k tie_rule_1 = Inr True"
  "evaluate_condition rounding_host c p example_sensor_data k tie_rule_2 = Inr True"
  "score_rule rounding_host example_sensor_data tie_rule_1 =
     Inr (double_0_1, double_0_30000000000000004)"
  "score_rule rounding_host example_sensor_data tie_rule_2 =
     Inr (1, double_0_30000000000000004)"
  "format_2f rounding_host double_0_1 = ''0.10''"
  by (simp_all add: evaluate_condition_def score_rule_def getitem_def tie_rule_1_def
      tie_rule_2_def rounding_host_def example_host_def build_context_def
      example_sensor_data_def as_number_def double_0_1_def)

lemma overflow_facts:
  "evaluate_condition example_host c p example_sensor_data k overflow_rule = Inr True"
  "score_rule example_host example_sensor_data overflow_rule =
     Inl (Exception (Raised ''OverflowError''))"
  "map_of overflow_rule ''id'' = Some (StrV ''r0'')"
  "eval_event h c p sd k overflow_rule =
     [Host_eval (StrV ''moisture<30'') [] (build_context h c p sd k)]"
proof -
  have "(2::int) ^ 1024 \<le> 10 ^ 400" by simp
  then have "\<not> \<bar>(10::int) ^ 400\<bar> < 2 ^ 1024" by simp
  then show "score_rule example_host example_sensor_data overflow_rule =
     Inl (Exception (Raised ''OverflowError''))"
    by (simp add: score_rule_def getitem_def overflow_rule_def example_host_def
        example_sensor_data_def del: power_numeral)
qed (simp_all add: evaluate_condition_def getitem_def overflow_rule_def example_host_def
      build_context_def example_sensor_data_def eval_event_def)

section \<open>The claims\<close>







text \<open>
  C3. In a maintenance pass (\<open>_perform_self_optimization\<close>) a record of the memory is
  deleted exactly when its decayed confidence is below the floor of 0.2 and its successes
  and failures together exceed 10; a record that survives is stored with the decayed
  confidence.
\<close>

theorem pruned_iff_low_confidence_and_exercised:
  assumes "heuristics ag = Some mem" and "distinct (map fst mem)" and "(key, stats) \<in> set mem"
  shows "\<exists>mem'. heuristics (fst (snd (perform_self_optimization lh ag))) = Some mem'
           \<and> (map_of mem' key = None \<longleftrightarrow>
                new_conf stats < prune_floor \<and> total_interactions stats > min_interactions)
           \<and> (map_of mem' key = None \<or>
                map_of mem' key = Some (dict_set ''confidence'' (new_conf stats) stats))"
proof -
  let ?decayed = "decay_loop mem"
  let ?mem' = "fst (prune_loop (snd ?decayed) (fst ?decayed, [Log_consolidation]))"
  have stored: "heuristics (fst (snd (perform_self_optimization lh ag))) = Some ?mem'"
    using assms(1) by (simp add: perform_self_optimization_def Let_def split: option.splits)
  have "distinct (map fst (fst (fst ?decayed, [Log_consolidation])))"
    using assms(2) by (simp add: keys_decayed)
  from map_of_prune_loop [OF this]
  have look: "map_of ?mem' key =
          (if key \<in> set (snd ?decayed) then None
           else Some (dict_set ''confidence'' (new_conf stats) stats))"
    using map_of_decayed [OF assms(2,3)] by simp
  have iff: "map_of ?mem' key = None \<longleftrightarrow>
          new_conf stats < prune_floor \<and> total_interactions stats > min_interactions"
    unfolding look using key_to_prune_iff [OF assms(2,3)] by simp
  have kept: "map_of ?mem' key = None \<or>
          map_of ?mem' key = Some (dict_set ''confidence'' (new_conf stats) stats)"
    unfolding look by simp
  show ?thesis
    by (rule exI [of _ ?mem']) (intro conjI stored iff kept)
qed

text \<open>
  The third scenario: the first record is pruned; the record that is only low in
  confidence and the one that is only well exercised survive, decayed.
\<close>

theorem pruned_iff_low_confidence_and_exercised_witness:
  "heuristics ((example_agent [] ''PUMP_WATER'' 100000)\<lparr>heuristics := Some example_memory\<rparr>) =
     Some example_memory
   \<and> distinct (map fst example_memory)
   \<and> (''r1_F1'', [(''confidence'', 19 / 100), (''successes'', 2), (''failures'', 10)])
        \<in> set example_memory
   \<and> new_conf [(''confidence'', 19 / 100), (''successes'', 2), (''failures'', 10)] < prune_floor
   \<and> total_interactions [(''confidence'', 19 / 100), (''successes'', 2), (''failures'', 10)]
        > min_interactions
   \<and> (\<exists>mem'. heuristics (fst (snd (perform_self_optimization (example_loop_host 25 0)
          ((example_agent [] ''PUMP_WATER'' 100000)\<lparr>heuristics := Some example_memory\<rparr>)))) = Some mem'
        \<and> map_of mem' ''r1_F1'' = None)
   \<and> heuristics (fst (snd (perform_self_optimization (example_loop_host 25 0)
          ((example_agent [] ''PUMP_WATER'' 100000)\<lparr>heuristics := Some example_memory\<rparr>)))) =
       Some [(''r2_F1'', [(''confidence'', 995 / 10000), (''successes'', 3), (''failures'', 2)]),
             (''r3_F1'', [(''confidence'', 8955 / 10000), (''successes'', 40), (''failures'', 10)])]"
proof -
  let ?ag = "(example_agent [] ''PUMP_WATER'' 100000)\<lparr>heuristics := Some example_memory\<rparr>"
  let ?st = "[(''confidence'', 19 / 100), (''successes'', 2), (''failures'', 10)] :: stats"
  have mem: "heuristics ?ag = Some example_memory" by simp
  have keys: "distinct (map fst example_memory)" by (simp add: example_memory_def)
  have rec: "(''r1_F1'', ?st) \<in> set example_memory" by (simp add: example_memory_def)
  have low: "new_conf ?st < prune_floor"
    by (simp add: new_conf_def dict_get_def decay_factor_def prune_floor_def)
  have used: "total_interactions ?st > min_interactions"
    by (simp add: total_interactions_def dict_get_def min_interactions_def)
  from pruned_iff_low_confidence_and_exercised [OF mem keys rec, of "example_loop_host 25 0"]
  have gone: "\<exists>mem'. heuristics (fst (snd (perform_self_optimization (example_loop_host 25 0) ?ag)))
                 = Some mem' \<and> map_of mem' ''r1_F1'' = None"
    using low used by blast
  have after: "heuristics (fst (snd (perform_self_optimization (example_loop_host 25 0) ?ag))) =
       Some [(''r2_F1'', [(''confidence'', 995 / 10000), (''successes'', 3), (''failures'', 2)]),
             (''r3_F1'', [(''confidence'', 8955 / 10000), (''successes'', 40), (''failures'', 10)])]"
    by (simp add: perform_self_optimization_def Let_def example_memory_def example_loop_host_def
        new_conf_def total_interactions_def dict_get_def decay_factor_def prune_floor_def
        min_interactions_def)
  show ?thesis
    by (intro conjI) (rule mem keys rec low used gone after)+
qed

text \<open>
  C4. For every configured limit and every proposed cost, \<open>is_within_budget\<close> answers
  True exactly when the cost is at most the limit, so also when the two are equal. Its
  only other effect is the warning it logs on a breach, and it always returns.
\<close>

theorem is_within_budget_iff:
  "fst (is_within_budget cm proposed_cost) = (proposed_cost \<le> cost_limit_kes cm)
   \<and> fst (is_within_budget (cm\<lparr>cost_limit_kes := proposed_cost\<rparr>) proposed_cost)
   \<and> snd (is_within_budget cm proposed_cost) =
       (if proposed_cost \<le> cost_limit_kes cm then []
        else [Log_cost_breach proposed_cost (cost_limit_kes cm)])"
  by (simp add: is_within_budget_def not_less)

text \<open>
  C5. Whenever the estimated cost of the action the rules selected exceeds the configured
  limit, \<open>decide_action\<close> returns the default action with the budget message in place of
  the rule's reason, and publishes the overridden action as \<open>last_action\<close>.
\<close>

theorem over_budget_overrides:
  assumes "rule_loop h (cfg ag) p sd 0 (rules ag) (default_selection, []) = ((sel, evs), None)"
    and "best_action sel = StrV a"
    and "as_number (get_tool_cost (knowledge_base ag) a) = Some cost"
    and "cost_limit_kes (cost_mgr ag) < cost"
  shows "fst (decide_action h ag p sd) =
           Inr [(''action'', ''ACTION: MONITOR_QUIETLY''), (''reason'', ''Budget Constraint Override.'')]
         \<and> last_action (status (fst (snd (decide_action h ag p sd)))) = ''ACTION: MONITOR_QUIETLY''"
  using decide_action_returns [OF assms(1-3)] assms(4) by simp

text \<open>
  The second scenario of the specification: cost 8 against a limit of 5; with a limit of
  100000 the rule's own action and reason are returned.
\<close>

theorem over_budget_overrides_witness:
  "as_number (get_tool_cost (knowledge_base
      (example_agent [example_rule ''r1'' ''moisture<30'' ''ACTION: PUMP_WATER''] ''PUMP_WATER'' 5))
      ''ACTION: PUMP_WATER'') = Some 8
   \<and> cost_limit_kes (cost_mgr
        (example_agent [example_rule ''r1'' ''moisture<30'' ''ACTION: PUMP_WATER''] ''PUMP_WATER'' 5)) < 8
   \<and> best_action (fst (fst (rule_loop example_host \<lparr>safety_lock = True\<rparr> ''DRY''
          example_sensor_data 0
          [example_rule ''r1'' ''moisture<30'' ''ACTION: PUMP_WATER''] (default_selection, [])))) =
       StrV ''ACTION: PUMP_WATER''
   \<and> fst (decide_action example_host
        (example_agent [example_rule ''r1'' ''moisture<30'' ''ACTION: PUMP_WATER''] ''PUMP_WATER'' 5)
        ''DRY'' example_sensor_data) =
       Inr [(''action'', ''ACTION: MONITOR_QUIETLY''), (''reason'', ''Budget Constraint Override.'')]
   \<and> fst (decide_action example_host
        (example_agent [example_rule ''r1'' ''moisture<30'' ''ACTION: PUMP_WATER''] ''PUMP_WATER'' 100000)
        ''DRY'' example_sensor_data) =
       Inr [(''action'', ''ACTION: PUMP_WATER''), (''reason'', ''Soil is dry (Conf: 1.00)'')]"
proof -
  let ?r = "example_rule ''r1'' ''moisture<30'' ''ACTION: PUMP_WATER''"
  let ?ag = "example_agent [?r] ''PUMP_WATER'' 5"
  let ?ag' = "example_agent [?r] ''PUMP_WATER'' 100000"
  let ?sel = "\<lparr>best_action = StrV ''ACTION: PUMP_WATER'', highest_score = 10,
               selected_reason = ''Soil is dry (Conf: 1.00)''\<rparr>"
  let ?evs = "[Host_eval (StrV ''moisture<30'') []
        [(''field_id'', StrV ''F1''), (''moisture'', IntV 20), (''prediction'', StrV ''DRY''),
         (''system_load_cpu'', IntV 25), (''geographical_zone'', StrV ''Kenya_Highlands''),
         (''safety_lock'', BoolV True)]]"
  have loop: "rule_loop example_host (cfg ?ag) ''DRY'' example_sensor_data 0 (rules ?ag)
                (default_selection, []) = ((?sel, ?evs), None)"
    and loop': "rule_loop example_host (cfg ?ag') ''DRY'' example_sensor_data 0 (rules ?ag')
                (default_selection, []) = ((?sel, ?evs), None)"
    by (simp_all only: example_agent_fields example_loop_pump)
  have best: "best_action ?sel = StrV ''ACTION: PUMP_WATER''" by simp
  have cost: "as_number (get_tool_cost (knowledge_base ?ag) ''ACTION: PUMP_WATER'') = Some 8"
    and cost': "as_number (get_tool_cost (knowledge_base ?ag') ''ACTION: PUMP_WATER'') = Some 8"
    by (simp_all add: example_costs as_number_def)
  have limit: "cost_limit_kes (cost_mgr ?ag) < 8" by (simp add: example_agent_fields)
  have selected: "best_action (fst (fst (rule_loop example_host \<lparr>safety_lock = True\<rparr> ''DRY''
          example_sensor_data 0 [?r] (default_selection, [])))) = StrV ''ACTION: PUMP_WATER''"
    by (simp only: example_loop_pump fst_conv selection.simps)
  from over_budget_overrides [OF loop best cost limit]
  have over: "fst (decide_action example_host ?ag ''DRY'' example_sensor_data) =
       Inr [(''action'', ''ACTION: MONITOR_QUIETLY''), (''reason'', ''Budget Constraint Override.'')]"
    by (rule conjunct1)
  have within: "fst (decide_action example_host ?ag' ''DRY'' example_sensor_data) =
       Inr [(''action'', ''ACTION: PUMP_WATER''), (''reason'', ''Soil is dry (Conf: 1.00)'')]"
    using decide_action_returns(1) [OF loop' best cost'] by (simp add: example_agent_fields)
  show ?thesis
    by (intro conjI) (rule cost limit selected over within)+
qed

text \<open>
  C6. Let the rules at positions \<open>i < j\<close> both match with the same computed score \<open>s\<close>
  (the product \<open>priority * confidence\<close> as the host computes it), above the score selected
  before \<open>i\<close>, and let no other rule after \<open>i\<close> score above \<open>s\<close>. Then the rule at \<open>i\<close>
  is the one selected: the loop ends with its action, the score \<open>s\<close> and the reason made
  of its log text and confidence, and \<open>decide_action\<close> returns that action and reason
  when the cost of the action is within the budget. The result is a function of the
  catalog, the context and the host's answers, so that a repeated call gives it again.
\<close>

theorem tie_keeps_earlier_rule:
  assumes "i < j" and "j < length (rules ag)"
    and "rule_loop h (cfg ag) p sd 0 (take i (rules ag)) (default_selection, []) =
           ((sel0, evs0), None)"
    and "highest_score sel0 < s"
    and "evaluate_condition h (cfg ag) p sd i (rules ag ! i) = Inr True"
    and "score_rule h sd (rules ag ! i) = Inr (conf_i, s)"
    and "map_of (rules ag ! i) ''action'' = Some a"
    and "map_of (rules ag ! i) ''log'' = Some l"
    and "evaluate_condition h (cfg ag) p sd j (rules ag ! j) = Inr True"
    and "score_rule h sd (rules ag ! j) = Inr (conf_j, s)"
    and "\<forall>k. i < k \<and> k < length (rules ag) \<and> k \<noteq> j \<longrightarrow>
           evaluate_condition h (cfg ag) p sd k (rules ag ! k) = Inr False
           \<or> (\<exists>conf s'. evaluate_condition h (cfg ag) p sd k (rules ag ! k) = Inr True
                  \<and> score_rule h sd (rules ag ! k) = Inr (conf, s') \<and> s' \<le> s)"
  shows "fst (fst (rule_loop h (cfg ag) p sd 0 (rules ag) (default_selection, []))) =
           \<lparr>best_action = a, highest_score = s,
            selected_reason = py_str h l @ '' (Conf: '' @ format_2f h conf_i @ '')''\<rparr>
       \<and> snd (rule_loop h (cfg ag) p sd 0 (rules ag) (default_selection, [])) = None
       \<and> (\<forall>name cost. a = StrV name
             \<and> as_number (get_tool_cost (knowledge_base ag) name) = Some cost
             \<and> cost \<le> cost_limit_kes (cost_mgr ag)
           \<longrightarrow> fst (decide_action h ag p sd) =
                 Inr [(''action'', name),
                      (''reason'', py_str h l @ '' (Conf: '' @ format_2f h conf_i @ '')'')])"
proof -
  let ?rs = "rules ag" and ?c = "cfg ag"
  let ?init = "(default_selection, []) :: selection \<times> event list"
  let ?S = "\<lparr>best_action = a, highest_score = s,
            selected_reason = py_str h l @ '' (Conf: '' @ format_2f h conf_i @ '')''\<rparr>"
  let ?st = "(?S, evs0 @ eval_event h ?c p sd i (?rs ! i))"
  let ?loop = "rule_loop h ?c p sd 0 ?rs ?init"
  have i: "i < length ?rs" using assms(1,2) by simp
  have "highest_score (fst (sel0, evs0)) < s" using assms(4) by simp
  from rule_step_selects [OF assms(5,6) this assms(7,8)]
  have step: "rule_step h ?c p sd i (?rs ! i) (sel0, evs0) = (?st, None)"
    by simp
  have whole: "?loop = rule_loop h ?c p sd (Suc i) (drop (Suc i) ?rs) ?st"
    using rule_loop_at [OF i assms(3)] step by simp
  have "\<forall>m<length (drop (Suc i) ?rs).
          evaluate_condition h ?c p sd (Suc i + m) (drop (Suc i) ?rs ! m) = Inr False
          \<or> (\<exists>conf s'. evaluate_condition h ?c p sd (Suc i + m) (drop (Suc i) ?rs ! m) = Inr True
                 \<and> score_rule h sd (drop (Suc i) ?rs ! m) = Inr (conf, s')
                 \<and> s' \<le> highest_score (fst ?st))"
  proof (intro allI impI)
    fix m assume "m < length (drop (Suc i) ?rs)"
    then have k: "i < Suc i + m" "Suc i + m < length ?rs"
      and nth: "drop (Suc i) ?rs ! m = ?rs ! (Suc i + m)"
      by simp_all
    show "evaluate_condition h ?c p sd (Suc i + m) (drop (Suc i) ?rs ! m) = Inr False
          \<or> (\<exists>conf s'. evaluate_condition h ?c p sd (Suc i + m) (drop (Suc i) ?rs ! m) = Inr True
                 \<and> score_rule h sd (drop (Suc i) ?rs ! m) = Inr (conf, s')
                 \<and> s' \<le> highest_score (fst ?st))"
    proof (cases "Suc i + m = j")
      case True
      with assms(9,10) nth show ?thesis by simp
    next
      case False
      with assms(11) [rule_format, of "Suc i + m"] k nth show ?thesis by simp
    qed
  qed
  from rule_loop_settled [OF this]
  have final: "fst (fst ?loop) = ?S" and finished: "snd ?loop = None"
    unfolding whole by simp_all
  have decide: "fst (decide_action h ag p sd) =
                 Inr [(''action'', name),
                      (''reason'', py_str h l @ '' (Conf: '' @ format_2f h conf_i @ '')'')]"
    if "a = StrV name \<and> as_number (get_tool_cost (knowledge_base ag) name) = Some cost
        \<and> cost \<le> cost_limit_kes (cost_mgr ag)" for name cost
  proof -
    have "?loop = ((?S, snd (fst ?loop)), None)"
      using final finished by (simp add: prod_eq_iff)
    from decide_action_returns(1) [OF this, of name cost] that show ?thesis by simp
  qed
  from final finished decide show ?thesis by blast
qed

text \<open>
  Rule \<open>r1\<close> (priority 3, confidence 0.1) in front of rule \<open>r2\<close> (priority
  0.30000000000000004, confidence 1.0): the computed scores are equal although the exact
  products are not, and \<open>r1\<close> is selected.
\<close>

theorem tie_keeps_earlier_rule_witness:
  "real_of_int 3 * double_0_1 \<noteq> double_0_30000000000000004
   \<and> score_rule rounding_host example_sensor_data tie_rule_1 =
       Inr (double_0_1, double_0_30000000000000004)
   \<and> score_rule rounding_host example_sensor_data tie_rule_2 =
       Inr (1, double_0_30000000000000004)
   \<and> fst (decide_action rounding_host
        (example_agent [tie_rule_1, tie_rule_2] ''PUMP_WATER'' 100000) ''DRY''
        example_sensor_data) =
      Inr [(''action'', ''ACTION: PUMP_WATER''), (''reason'', ''Soil is dry (Conf: 0.10)'')]"
proof -
  let ?ag = "example_agent [tie_rule_1, tie_rule_2] ''PUMP_WATER'' 100000"
  have exact: "real_of_int 3 * double_0_1 \<noteq> double_0_30000000000000004"
    by (simp add: double_0_1_def double_0_30000000000000004_def)
  have rs: "rules ?ag ! 0 = tie_rule_1" "rules ?ag ! 1 = tie_rule_2" "length (rules ?ag) = 2"
    by (simp_all add: example_agent_fields)
  have h1: "(0::nat) < 1" and h2: "1 < length (rules ?ag)"
    by (simp_all add: rs)
  have h3: "rule_loop rounding_host (cfg ?ag) ''DRY'' example_sensor_data 0 (take 0 (rules ?ag))
              (default_selection, []) = ((default_selection, []), None)"
    by simp
  have h4: "highest_score default_selection < double_0_30000000000000004"
    by (simp add: default_selection_def double_0_30000000000000004_def)
  have h5: "evaluate_condition rounding_host (cfg ?ag) ''DRY'' example_sensor_data 0
              (rules ?ag ! 0) = Inr True"
    and h9: "evaluate_condition rounding_host (cfg ?ag) ''DRY'' example_sensor_data 1
              (rules ?ag ! 1) = Inr True"
    unfolding rs by (rule rounding_facts)+
  have h6: "score_rule rounding_host example_sensor_data (rules ?ag ! 0) =
              Inr (double_0_1, double_0_30000000000000004)"
    and h10: "score_rule rounding_host example_sensor_data (rules ?ag ! 1) =
              Inr (1, double_0_30000000000000004)"
    unfolding rs by (rule rounding_facts)+
  have h7: "map_of (rules ?ag ! 0) ''action'' = Some (StrV ''ACTION: PUMP_WATER'')"
    and h8: "map_of (rules ?ag ! 0) ''log'' = Some (StrV ''Soil is dry'')"
    unfolding rs by (simp_all add: tie_rule_1_def)
  have h11: "\<forall>k. 0 < k \<and> k < length (rules ?ag) \<and> k \<noteq> 1 \<longrightarrow>
           evaluate_condition rounding_host (cfg ?ag) ''DRY'' example_sensor_data k
             (rules ?ag ! k) = Inr False
           \<or> (\<exists>conf s'. evaluate_condition rounding_host (cfg ?ag) ''DRY'' example_sensor_data k
                  (rules ?ag ! k) = Inr True
                  \<and> score_rule rounding_host example_sensor_data (rules ?ag ! k) = Inr (conf, s')
                  \<and> s' \<le> double_0_30000000000000004)"
    unfolding rs(3) by auto
  note first = tie_keeps_earlier_rule [OF h1 h2 h3 h4 h5 h6 h7 h8 h9 h10 h11]
  have cost: "as_number (get_tool_cost (knowledge_base ?ag) ''ACTION: PUMP_WATER'') = Some 8"
    by (simp add: example_costs as_number_def)
  have "StrV ''ACTION: PUMP_WATER'' = StrV ''ACTION: PUMP_WATER''
        \<and> as_number (get_tool_cost (knowledge_base ?ag) ''ACTION: PUMP_WATER'') = Some 8
        \<and> 8 \<le> cost_limit_kes (cost_mgr ?ag)"
    by (simp add: cost example_agent_fields(3))
  from first [THEN conjunct2, THEN conjunct2, rule_format, OF this]
  have result: "fst (decide_action rounding_host ?ag ''DRY'' example_sensor_data) =
      Inr [(''action'', ''ACTION: PUMP_WATER''), (''reason'', ''Soil is dry (Conf: 0.10)'')]"
    by (simp add: py_str_def rounding_facts(5))
  show ?thesis
    by (intro conjI) (rule exact rounding_facts(3) rounding_facts(4) result)+
qed

text \<open>
  C7, as amended. Let the \<open>try\<close> block of the rule at position \<open>k\<close> raise \<open>x\<close>, in the
  evaluation of the condition or in the scoring after it. If \<open>x\<close> derives from
  \<open>Exception\<close> and the rule has an id, the error is logged under that id and the loop goes
  on with the rules after \<open>k\<close> from the selection it had before \<open>k\<close>. If \<open>x\<close> is an exit
  signal (\<open>SystemExit\<close>, \<open>KeyboardInterrupt\<close>), nothing is logged, no later rule is
  evaluated, and \<open>decide_action\<close> raises \<open>x\<close> to its caller and leaves the status as it
  was.
\<close>

theorem failing_rule_is_skipped:
  assumes "k < length (rules ag)"
    and "rule_loop h (cfg ag) p sd 0 (take k (rules ag)) (default_selection, []) =
           ((sel, evs), None)"
    and "evaluate_condition h (cfg ag) p sd k (rules ag ! k) = Inl x
         \<or> (evaluate_condition h (cfg ag) p sd k (rules ag ! k) = Inr True
            \<and> score_rule h sd (rules ag ! k) = Inl x)"
  shows "(\<forall>e rid. x = Exception e \<and> map_of (rules ag ! k) ''id'' = Some rid \<longrightarrow>
            rule_loop h (cfg ag) p sd 0 (rules ag) (default_selection, []) =
              rule_loop h (cfg ag) p sd (Suc k) (drop (Suc k) (rules ag))
                (sel, evs @ eval_event h (cfg ag) p sd k (rules ag ! k) @
                   [Log_rule_evaluation_error rid e]))
       \<and> (except_Exception x = None \<longrightarrow>
            decide_action h ag p sd =
              (Inl x, ag, evs @ eval_event h (cfg ag) p sd k (rules ag ! k)))"
proof (intro conjI allI impI)
  fix e rid assume "x = Exception e \<and> map_of (rules ag ! k) ''id'' = Some rid"
  then have x: "x = Exception e" and rid: "map_of (rules ag ! k) ''id'' = Some rid"
    by simp_all
  from assms(3) have "evaluate_condition h (cfg ag) p sd k (rules ag ! k) = Inl (Exception e)
         \<or> (evaluate_condition h (cfg ag) p sd k (rules ag ! k) = Inr True
            \<and> score_rule h sd (rules ag ! k) = Inl (Exception e))"
    unfolding x .
  from rule_step_caught [OF this rid, of "(sel, evs)"]
  show "rule_loop h (cfg ag) p sd 0 (rules ag) (default_selection, []) =
              rule_loop h (cfg ag) p sd (Suc k) (drop (Suc k) (rules ag))
                (sel, evs @ eval_event h (cfg ag) p sd k (rules ag ! k) @
                   [Log_rule_evaluation_error rid e])"
    using rule_loop_at [OF assms(1,2)] by simp
next
  assume "except_Exception x = None"
  from rule_step_exit [OF assms(3) this, of "(sel, evs)"]
  have "rule_loop h (cfg ag) p sd 0 (rules ag) (default_selection, []) =
          ((sel, evs @ eval_event h (cfg ag) p sd k (rules ag ! k)), Some x)"
    using rule_loop_at [OF assms(1,2)] by simp
  then show "decide_action h ag p sd =
              (Inl x, ag, evs @ eval_event h (cfg ag) p sd k (rules ag ! k))"
    by (rule decide_action_raises)
qed

text \<open>
  A rule whose scoring overflows, in front of the rule of the first scenario: it is logged
  and skipped, and the rule after it is selected. A rule whose condition calls \<open>exit\<close>, in
  front of the same rule: \<open>SystemExit\<close> leaves \<open>decide_action\<close> after one call of
  \<open>eval\<close>.
\<close>

theorem failing_rule_is_skipped_witness:
  "score_rule example_host example_sensor_data overflow_rule =
     Inl (Exception (Raised ''OverflowError''))
   \<and> fst (decide_action example_host
        (example_agent [overflow_rule, example_rule ''r1'' ''moisture<30'' ''ACTION: PUMP_WATER'']
           ''PUMP_WATER'' 100000) ''DRY'' example_sensor_data) =
      Inr [(''action'', ''ACTION: PUMP_WATER''), (''reason'', ''Soil is dry (Conf: 1.00)'')]
   \<and> snd (snd (decide_action example_host
        (example_agent [overflow_rule, example_rule ''r1'' ''moisture<30'' ''ACTION: PUMP_WATER'']
           ''PUMP_WATER'' 100000) ''DRY'' example_sensor_data)) =
      [Host_eval (StrV ''moisture<30'') []
         [(''field_id'', StrV ''F1''), (''moisture'', IntV 20), (''prediction'', StrV ''DRY''),
          (''system_load_cpu'', IntV 25), (''geographical_zone'', StrV ''Kenya_Highlands''),
          (''safety_lock'', BoolV True)],
       Log_rule_evaluation_error (StrV ''r0'') (Raised ''OverflowError''),
       Host_eval (StrV ''moisture<30'') []
         [(''field_id'', StrV ''F1''), (''moisture'', IntV 20), (''prediction'', StrV ''DRY''),
          (''system_load_cpu'', IntV 25), (''geographical_zone'', StrV ''Kenya_Highlands''),
          (''safety_lock'', BoolV True)]]
   \<and> decide_action general_purpose_host
        (example_agent [example_rule ''r0'' ''exit()'' ''ACTION: ALERT_FARMER'',
                        example_rule ''r1'' ''moisture<30'' ''ACTION: PUMP_WATER'']
           ''PUMP_WATER'' 100000) ''DRY'' example_sensor_data =
      (Inl SystemExit,
       example_agent [example_rule ''r0'' ''exit()'' ''ACTION: ALERT_FARMER'',
                      example_rule ''r1'' ''moisture<30'' ''ACTION: PUMP_WATER'']
           ''PUMP_WATER'' 100000,
       [Host_eval (StrV ''exit()'') []
         [(''field_id'', StrV ''F1''), (''moisture'', IntV 20), (''prediction'', StrV ''DRY''),
          (''system_load_cpu'', IntV 25), (''geographical_zone'', StrV ''Kenya_Highlands''),
          (''safety_lock'', BoolV True)]])"
proof -
  let ?r1 = "example_rule ''r1'' ''moisture<30'' ''ACTION: PUMP_WATER''"
  let ?rx = "example_rule ''r0'' ''exit()'' ''ACTION: ALERT_FARMER''"
  let ?ag = "example_agent [overflow_rule, ?r1] ''PUMP_WATER'' 100000"
  let ?agx = "example_agent [?rx, ?r1] ''PUMP_WATER'' 100000"
  let ?ctx = "[(''field_id'', StrV ''F1''), (''moisture'', IntV 20), (''prediction'', StrV ''DRY''),
          (''system_load_cpu'', IntV 25), (''geographical_zone'', StrV ''Kenya_Highlands''),
          (''safety_lock'', BoolV True)]"
  let ?init = "(default_selection, []) :: selection \<times> event list"
  let ?sel = "\<lparr>best_action = StrV ''ACTION: PUMP_WATER'', highest_score = 10,
               selected_reason = ''Soil is dry (Conf: 1.00)''\<rparr>"
  let ?evs = "[Host_eval (StrV ''moisture<30'') [] ?ctx,
               Log_rule_evaluation_error (StrV ''r0'') (Raised ''OverflowError''),
               Host_eval (StrV ''moisture<30'') [] ?ctx]"
  have len: "0 < length (rules ?ag)" and lenx: "0 < length (rules ?agx)"
    by (simp_all add: example_agent_fields)
  have prefix: "rule_loop example_host (cfg ?ag) ''DRY'' example_sensor_data 0
                  (take 0 (rules ?ag)) ?init = ((default_selection, []), None)"
    and prefixx: "rule_loop general_purpose_host (cfg ?agx) ''DRY'' example_sensor_data 0
                  (take 0 (rules ?agx)) ?init = ((default_selection, []), None)"
    by simp_all
  have fails: "evaluate_condition example_host (cfg ?ag) ''DRY'' example_sensor_data 0
                 (rules ?ag ! 0) = Inl (Exception (Raised ''OverflowError''))
         \<or> (evaluate_condition example_host (cfg ?ag) ''DRY'' example_sensor_data 0
                 (rules ?ag ! 0) = Inr True
            \<and> score_rule example_host example_sensor_data (rules ?ag ! 0) =
                 Inl (Exception (Raised ''OverflowError'')))"
    by (simp add: example_agent_fields overflow_facts)
  have rid: "Exception (Raised ''OverflowError'') = Exception (Raised ''OverflowError'')
             \<and> map_of (rules ?ag ! 0) ''id'' = Some (StrV ''r0'')"
    by (simp add: example_agent_fields overflow_facts)
  note skipped = failing_rule_is_skipped [OF len prefix fails]
  from skipped [THEN conjunct1, rule_format, OF rid]
  have "rule_loop example_host (cfg ?ag) ''DRY'' example_sensor_data 0 (rules ?ag) ?init =
          rule_loop example_host \<lparr>safety_lock = True\<rparr> ''DRY'' example_sensor_data (Suc 0) [?r1]
            (default_selection,
             [Host_eval (StrV ''moisture<30'') [] ?ctx,
              Log_rule_evaluation_error (StrV ''r0'') (Raised ''OverflowError'')])"
    by (simp add: example_agent_fields overflow_facts example_context del: rule_loop.simps)
  also have "\<dots> = ((?sel, ?evs), None)"
  proof -
    have "highest_score (fst (default_selection,
             [Host_eval (StrV ''moisture<30'') [] ?ctx,
              Log_rule_evaluation_error (StrV ''r0'') (Raised ''OverflowError'')])) < 10"
      by (simp add: default_selection_def)
    from example_step_pump [OF this] show ?thesis
      by (simp add: example_context)
  qed
  finally have loop: "rule_loop example_host (cfg ?ag) ''DRY'' example_sensor_data 0 (rules ?ag)
                        ?init = ((?sel, ?evs), None)" .
  have best: "best_action ?sel = StrV ''ACTION: PUMP_WATER''" by simp
  have cost: "as_number (get_tool_cost (knowledge_base ?ag) ''ACTION: PUMP_WATER'') = Some 8"
    by (simp add: example_costs as_number_def)
  have result: "fst (decide_action example_host ?ag ''DRY'' example_sensor_data) =
      Inr [(''action'', ''ACTION: PUMP_WATER''), (''reason'', ''Soil is dry (Conf: 1.00)'')]"
    using decide_action_returns(1) [OF loop best cost] by (simp add: example_agent_fields)
  have events: "snd (snd (decide_action example_host ?ag ''DRY'' example_sensor_data)) = ?evs"
    using loop cost by (simp add: decide_action_def Let_def is_within_budget_def
        example_agent_fields(3) del: rule_loop.simps)
  have exits: "evaluate_condition general_purpose_host (cfg ?agx) ''DRY'' example_sensor_data 0
                 (rules ?agx ! 0) = Inl SystemExit
         \<or> (evaluate_condition general_purpose_host (cfg ?agx) ''DRY'' example_sensor_data 0
                 (rules ?agx ! 0) = Inr True
            \<and> score_rule general_purpose_host example_sensor_data (rules ?agx ! 0) =
                 Inl SystemExit)"
    by (simp add: example_agent_fields evaluate_condition_def getitem_def example_rule_def
        general_purpose_host_def)
  have signal: "except_Exception SystemExit = None" by simp
  note left = failing_rule_is_skipped [OF lenx prefixx exits]
  from left [THEN conjunct2, rule_format, OF signal]
  have propagated: "decide_action general_purpose_host ?agx ''DRY'' example_sensor_data =
      (Inl SystemExit, ?agx, [Host_eval (StrV ''exit()'') [] ?ctx])"
    by (simp add: example_agent_fields(1,2) example_event example_context)
  show ?thesis
    by (intro conjI) (rule overflow_facts(2) result events propagated)+
qed

text \<open>
  The claim as stated fails: the condition \<open>exit()\<close> of the first rule raises
  \<open>SystemExit\<close>, which \<open>except Exception\<close> does not catch. \<open>decide_action\<close> raises it to
  its caller, logs nothing and never evaluates the second rule.
\<close>

theorem exit_signal_counterexample:
  "fst (decide_action general_purpose_host
        (example_agent [example_rule ''r0'' ''exit()'' ''ACTION: ALERT_FARMER'',
                        example_rule ''r1'' ''moisture<30'' ''ACTION: PUMP_WATER'']
           ''PUMP_WATER'' 100000) ''DRY'' example_sensor_data) = Inl SystemExit
   \<and> snd (snd (decide_action general_purpose_host
        (example_agent [example_rule ''r0'' ''exit()'' ''ACTION: ALERT_FARMER'',
                        example_rule ''r1'' ''moisture<30'' ''ACTION: PUMP_WATER'']
           ''PUMP_WATER'' 100000) ''DRY'' example_sensor_data)) =
      [Host_eval (StrV ''exit()'') []
         [(''field_id'', StrV ''F1''), (''moisture'', IntV 20), (''prediction'', StrV ''DRY''),
          (''system_load_cpu'', IntV 25), (''geographical_zone'', StrV ''Kenya_Highlands''),
          (''safety_lock'', BoolV True)]]"
proof -
  let ?agx = "example_agent [example_rule ''r0'' ''exit()'' ''ACTION: ALERT_FARMER'',
                        example_rule ''r1'' ''moisture<30'' ''ACTION: PUMP_WATER'']
           ''PUMP_WATER'' 100000"
  have "rule_loop general_purpose_host (cfg ?agx) ''DRY'' example_sensor_data 0 (rules ?agx)
          (default_selection, []) =
        ((default_selection,
          [Host_eval (StrV ''exit()'') []
            [(''field_id'', StrV ''F1''), (''moisture'', IntV 20), (''prediction'', StrV ''DRY''),
             (''system_load_cpu'', IntV 25), (''geographical_zone'', StrV ''Kenya_Highlands''),
             (''safety_lock'', BoolV True)]]), Some SystemExit)"
    by (simp only: example_agent_fields exit_loop)
  from decide_action_raises [OF this] show ?thesis by simp
qed

text \<open>
  C8, as amended. \<open>decide_action\<close> leaves \<open>state\<close>, \<open>uptime\<close> and the attempt counter
  alone; when it returns it has written \<open>last_action\<close> (the action it returns) and
  \<open>timestamp\<close> and nothing else, and when it raises it has written nothing. An iteration
  of the background loop writes \<open>state\<close> and \<open>uptime\<close>, leaves \<open>timestamp\<close> alone, and
  under CPU stress its conflict handler also writes \<open>last_action\<close>.
\<close>

theorem status_fields_by_writer:
  "state (status (fst (snd (decide_action h ag p sd)))) = state (status ag)
   \<and> uptime (status (fst (snd (decide_action h ag p sd)))) = uptime (status ag)
   \<and> self_modification_attempts (status (fst (snd (decide_action h ag p sd)))) =
       self_modification_attempts (status ag)
   \<and> status (fst (snd (decide_action h ag p sd))) =
       (case fst (decide_action h ag p sd) of
          Inl x \<Rightarrow> status ag
        | Inr res \<Rightarrow> (status ag)\<lparr>last_action := dict_get res ''action'' [],
                                  timestamp := time_now h\<rparr>)
   \<and> timestamp (status (fst (agent_loop_iteration lh ag))) = timestamp (status ag)
   \<and> state (status (fst (agent_loop_iteration lh ag))) = ''MONITORING''
   \<and> uptime (status (fst (agent_loop_iteration lh ag))) = py_int (loop_time lh - start_time ag)
   \<and> last_action (status (fst (agent_loop_iteration lh ag))) =
       (if cpu_reading lh > 60 then ''CRITICAL_POLICY_OVERRIDE'' else last_action (status ag))"
proof -
  note written = decide_action_status [of h ag p sd]
  have kept: "state (status (fst (snd (decide_action h ag p sd)))) = state (status ag)"
    "uptime (status (fst (snd (decide_action h ag p sd)))) = uptime (status ag)"
    "self_modification_attempts (status (fst (snd (decide_action h ag p sd)))) =
       self_modification_attempts (status ag)"
    unfolding written by (simp_all split: sum.splits)
  note loop = agent_loop_iteration_status [of lh ag]
  show ?thesis
    by (intro conjI) (rule kept written loop [THEN conjunct1]
        loop [THEN conjunct2, THEN conjunct1]
        loop [THEN conjunct2, THEN conjunct2, THEN conjunct1]
        loop [THEN conjunct2, THEN conjunct2, THEN conjunct2])+
qed

text \<open>
  The claim as stated fails: with a CPU reading of 65 one iteration of the loop changes
  \<open>last_action\<close> from \<open>BOOTING\<close> to \<open>CRITICAL_POLICY_OVERRIDE\<close>.
\<close>

theorem loop_writes_last_action_counterexample:
  "last_action (status (example_agent [] ''PUMP_WATER'' 100000)) = ''BOOTING''
   \<and> last_action (status (fst (agent_loop_iteration (example_loop_host 65 (1 / 2))
        (example_agent [] ''PUMP_WATER'' 100000)))) = ''CRITICAL_POLICY_OVERRIDE''"
  by (simp add: agent_loop_iteration_def Let_def check_cpu_stress_threshold_def
      handle_autonomy_conflict_def example_loop_host_def example_agent_def init_agent_def
      initial_status_def)

text \<open>
  C9. From the same configuration, the agent's \<open>_handle_autonomy_conflict\<close> leaves the
  safety lock off and \<open>resolve_autonomy_conflict\<close> of \<open>main.py\<close> leaves it on: the two
  handlers never agree on the resulting lock.
\<close>

theorem conflict_handlers_disagree:
  "\<not> is_safety_lock_active (cfg (fst (handle_autonomy_conflict draw ag)))
   \<and> is_safety_lock_active (fst (resolve_autonomy_conflict (cfg ag)))
   \<and> is_safety_lock_active (cfg (fst (handle_autonomy_conflict draw ag))) \<noteq>
       is_safety_lock_active (fst (resolve_autonomy_conflict (cfg ag)))"
  by (simp add: handle_autonomy_conflict_frame resolve_autonomy_conflict_def
      set_safety_lock_status_def is_safety_lock_active_def)

text \<open>
  C10. An action whose name (after \<open>ACTION: \<close> is removed, as the lookup does) is absent
  from the tool table costs 0; with a limit that is not negative the budget check passes,
  and \<open>decide_action\<close> returns the action and the reason the rules selected.
\<close>

theorem absent_tool_costs_nothing:
  assumes "map_of (case tool_definitions (knowledge_base ag) of None \<Rightarrow> [] | Some d \<Rightarrow> d)
             (str_replace ''ACTION: '' [] a) = None"
    and "0 \<le> cost_limit_kes (cost_mgr ag)"
    and "rule_loop h (cfg ag) p sd 0 (rules ag) (default_selection, []) = ((sel, evs), None)"
    and "best_action sel = StrV a"
  shows "get_tool_cost (knowledge_base ag) a = IntV 0
       \<and> as_number (get_tool_cost (knowledge_base ag) a) = Some 0
       \<and> fst (is_within_budget (cost_mgr ag) 0)
       \<and> fst (decide_action h ag p sd) = Inr [(''action'', a), (''reason'', selected_reason sel)]"
proof -
  have cost: "get_tool_cost (knowledge_base ag) a = IntV 0"
    using assms(1) by (simp add: get_tool_cost_def dict_get_def)
  then have num: "as_number (get_tool_cost (knowledge_base ag) a) = Some 0"
    by (simp add: as_number_def)
  have ok: "fst (is_within_budget (cost_mgr ag) 0)"
    using assms(2) by (simp add: is_within_budget_def)
  have "fst (decide_action h ag p sd) = Inr [(''action'', a), (''reason'', selected_reason sel)]"
    using decide_action_returns(1) [OF assms(3,4) num] assms(2) by simp
  with cost num ok show ?thesis by simp
qed

text \<open>
  A tool table without \<open>PUMP_WATER\<close> and a limit of 0.
\<close>

theorem absent_tool_costs_nothing_witness:
  "map_of (case tool_definitions (knowledge_base (example_agent
        [example_rule ''r1'' ''moisture<30'' ''ACTION: PUMP_WATER''] ''SPRAY'' 0)) of
           None \<Rightarrow> [] | Some d \<Rightarrow> d)
     (str_replace ''ACTION: '' [] ''ACTION: PUMP_WATER'') = None
   \<and> (0::real) \<le> cost_limit_kes (cost_mgr (example_agent
        [example_rule ''r1'' ''moisture<30'' ''ACTION: PUMP_WATER''] ''SPRAY'' 0))
   \<and> get_tool_cost (knowledge_base (example_agent
        [example_rule ''r1'' ''moisture<30'' ''ACTION: PUMP_WATER''] ''SPRAY'' 0))
        ''ACTION: PUMP_WATER'' = IntV 0
   \<and> fst (decide_action example_host (example_agent
        [example_rule ''r1'' ''moisture<30'' ''ACTION: PUMP_WATER''] ''SPRAY'' 0)
        ''DRY'' example_sensor_data) =
      Inr [(''action'', ''ACTION: PUMP_WATER''), (''reason'', ''Soil is dry (Conf: 1.00)'')]"
proof -
  let ?ag = "example_agent [example_rule ''r1'' ''moisture<30'' ''ACTION: PUMP_WATER''] ''SPRAY'' 0"
  let ?sel = "\<lparr>best_action = StrV ''ACTION: PUMP_WATER'', highest_score = 10,
               selected_reason = ''Soil is dry (Conf: 1.00)''\<rparr>"
  let ?evs = "[Host_eval (StrV ''moisture<30'') []
        [(''field_id'', StrV ''F1''), (''moisture'', IntV 20), (''prediction'', StrV ''DRY''),
         (''system_load_cpu'', IntV 25), (''geographical_zone'', StrV ''Kenya_Highlands''),
         (''safety_lock'', BoolV True)]]"
  have loop: "rule_loop example_host (cfg ?ag) ''DRY'' example_sensor_data 0 (rules ?ag)
                (default_selection, []) = ((?sel, ?evs), None)"
    by (simp only: example_agent_fields example_loop_pump)
  have best: "best_action ?sel = StrV ''ACTION: PUMP_WATER''" by simp
  have absent: "map_of (case tool_definitions (knowledge_base ?ag) of None \<Rightarrow> [] | Some d \<Rightarrow> d)
     (str_replace ''ACTION: '' [] ''ACTION: PUMP_WATER'') = None"
    by (simp add: example_agent_fields str_replace_def)
  have limit: "0 \<le> cost_limit_kes (cost_mgr ?ag)" by (simp add: example_agent_fields)
  note free = absent_tool_costs_nothing [OF absent limit loop best]
  from free have cost: "get_tool_cost (knowledge_base ?ag) ''ACTION: PUMP_WATER'' = IntV 0"
    by (rule conjunct1)
  from free have "fst (decide_action example_host ?ag ''DRY'' example_sensor_data) =
      Inr [(''action'', ''ACTION: PUMP_WATER''), (''reason'', selected_reason ?sel)]"
    by (rule conjunct2 [THEN conjunct2, THEN conjunct2])
  then have result: "fst (decide_action example_host ?ag ''DRY'' example_sensor_data) =
      Inr [(''action'', ''ACTION: PUMP_WATER''), (''reason'', ''Soil is dry (Conf: 1.00)'')]"
    by simp
  show ?thesis
    by (intro conjI) (rule absent limit cost result)+
qed

end
